theory Spec2Isabelle
  imports Main "HOL-Library.Char_ord" "HOL-Library.List_Lexorder" "HOL-Library.AList"
    "HOL-Library.Multiset"
begin

section \<open>Canonical scope keys\<close>

text \<open>
  A JavaScript string is a sequence of code units; here it is a \<^typ>\<open>string\<close>, each
  \<^typ>\<open>char\<close> standing for one code unit.  \<^verbatim>\<open>Array.prototype.sort()\<close> without a comparator
  orders strings by their code units, lexicographically (a proper prefix comes first):
  this is the order of \<^typ>\<open>string\<close> with the character order of its codes.  Equal
  strings cannot be told apart, so the sorted array is the one sorted permutation,
  \<^term>\<open>sort scopes\<close>.
\<close>

text \<open>\<^verbatim>\<open>Array.prototype.join(sep)\<close>: the elements with \<open>sep\<close> between neighbours.\<close>

fun join :: "string \<Rightarrow> string list \<Rightarrow> string" where
  "join sep [] = []"
| "join sep [x] = x"
| "join sep (x # y # ys) = x @ sep @ join sep (y # ys)"

text \<open>
  Host side (\<^verbatim>\<open>AuthenticationServiceImpl\<close>): \<^verbatim>\<open>scopes.sort().join('')\<close> in
  \<^verbatim>\<open>requestNewSession\<close> and \<^verbatim>\<open>session.scopes.sort().join('')\<close> in
  \<^verbatim>\<open>updateNewSessionRequests\<close>.
\<close>

definition hostScopeKey :: "string list \<Rightarrow> string" where
  "hostScopeKey scopes = join [] (sort scopes)"

text \<open>
  Plugin side (\<^verbatim>\<open>AuthenticationExtImpl\<close>): \<^verbatim>\<open>scopes.sort().join(' ')\<close> in
  \<^verbatim>\<open>hasSessions\<close> and \<^verbatim>\<open>getSession\<close>.
\<close>

definition pluginScopeKey :: "string list \<Rightarrow> string" where
  "pluginScopeKey scopes = join '' '' (sort scopes)"

section \<open>Data model (authentication-service.ts)\<close>

record Account =
  account_displayName :: string
  account_id :: string

record AuthenticationSession =
  session_id :: string
  session_accessToken :: string
  session_account :: Account
  session_scopes :: "string list"

record AuthenticationSessionsChangeEvent =
  event_added :: "string list"
  event_removed :: "string list"
  event_changed :: "string list"

text \<open>
  The data properties of \<^verbatim>\<open>interface AuthenticationProvider\<close>.  Its methods
  (\<^verbatim>\<open>hasSessions\<close>, \<^verbatim>\<open>getSessions\<close>, \<^verbatim>\<open>login\<close>, ...) are implemented outside this
  code; an operation that calls one takes what the method answers as an argument.
\<close>

record AuthenticationProvider =
  provider_id :: string
  supportsMultipleAccounts :: bool
  displayName :: string

text \<open>A \<^verbatim>\<open>Disposable\<close> is an object with one method, \<^verbatim>\<open>dispose()\<close>; a number names it.\<close>

type_synonym disposable = nat

record SessionRequest =
  disposables :: "disposable list"
  requestingExtensionIds :: "string list"

text \<open>
  \<^verbatim>\<open>SessionRequestInfo\<close> is an object indexed by the scope key.  The association list
  holds its own properties in the order \<^verbatim>\<open>Object.keys\<close> lists them.
\<close>

type_synonym SessionRequestInfo = "(string \<times> SessionRequest) list"

datatype error =
    DuplicateProviderError string
      \<comment> \<open>\<^verbatim>\<open>An authentication provider with id '...' is already registered.\<close>\<close>
  | UnknownProviderError string
      \<comment> \<open>\<^verbatim>\<open>No authentication provider '...' is currently registered.\<close>\<close>
  | ConsentDeniedError
      \<comment> \<open>\<^verbatim>\<open>User did not consent to login.\<close>\<close>
  | TypeError
      \<comment> \<open>raised by the language on reading a property of \<^verbatim>\<open>undefined\<close>\<close>

text \<open>What the service does to the outside, in the order it does it.\<close>

datatype effect =
    Fire_onDidRegisterAuthenticationProvider string
  | Fire_onDidUnregisterAuthenticationProvider string
  | Fire_onDidChangeSessions string AuthenticationSessionsChangeEvent
  | Provider_dispose AuthenticationProvider
  | Provider_updateSessionItems AuthenticationProvider AuthenticationSessionsChangeEvent
  | Dispose disposable

text \<open>
  The fields of \<^verbatim>\<open>class AuthenticationServiceImpl\<close>.  A JavaScript \<^verbatim>\<open>Map\<close> keeps its
  entries in insertion order and \<^verbatim>\<open>set\<close> on a present key keeps the entry's place, as
  \<^const>\<open>AList.update\<close> does.
\<close>

record AuthenticationServiceImpl =
  placeholderMenuItem :: "disposable option"
  noAccountsMenuItem :: "disposable option"
  signInRequestItems :: "(string \<times> SessionRequestInfo) list"
  badgeDisposable :: "disposable option"
  authenticationProviders :: "(string \<times> AuthenticationProvider) list"
  effects :: "effect list"

definition do_effects :: "effect list \<Rightarrow> AuthenticationServiceImpl \<Rightarrow> AuthenticationServiceImpl" where
  "do_effects es st = st\<lparr>effects := effects st @ es\<rparr>"

section \<open>The host-side service (AuthenticationServiceImpl)\<close>

text \<open>The service as the field initialisers and the (empty) constructor leave it.\<close>

definition service0 :: AuthenticationServiceImpl where
  "service0 = \<lparr>placeholderMenuItem = None, noAccountsMenuItem = None, signInRequestItems = [],
     badgeDisposable = None, authenticationProviders = [], effects = []\<rparr>"

definition getProviderIds :: "AuthenticationServiceImpl \<Rightarrow> string list" where
  "getProviderIds st = map (\<lambda>(_, provider). provider_id provider) (authenticationProviders st)"

definition isAuthenticationProviderRegistered :: "AuthenticationServiceImpl \<Rightarrow> string \<Rightarrow> bool" where
  "isAuthenticationProviderRegistered st i = (map_of (authenticationProviders st) i \<noteq> None)"

text \<open>
  \<^verbatim>\<open>updateAccountsMenuItem\<close>; \<open>hasSessions\<close> is what each provider's \<^verbatim>\<open>hasSessions()\<close>
  answers.  The second \<^verbatim>\<open>if\<close> of the source has an empty body.
\<close>

definition updateAccountsMenuItem ::
  "(AuthenticationProvider \<Rightarrow> bool) \<Rightarrow> AuthenticationServiceImpl \<Rightarrow> AuthenticationServiceImpl" where
  "updateAccountsMenuItem hasSessions st =
     (let hasSession = foldl (\<lambda>h (_, provider). h \<or> hasSessions provider) False
                         (authenticationProviders st)
      in case noAccountsMenuItem st of
           Some item \<Rightarrow>
             if hasSession then do_effects [Dispose item] (st\<lparr>noAccountsMenuItem := None\<rparr>)
             else st
         | None \<Rightarrow> st)"

definition registerAuthenticationProvider ::
  "(AuthenticationProvider \<Rightarrow> bool) \<Rightarrow> AuthenticationServiceImpl \<Rightarrow> string \<Rightarrow>
   AuthenticationProvider \<Rightarrow> AuthenticationServiceImpl" where
  "registerAuthenticationProvider hasSessions st i authenticationProvider =
     (let st1 = do_effects [Fire_onDidRegisterAuthenticationProvider i]
                  (st\<lparr>authenticationProviders :=
                        AList.update i authenticationProvider (authenticationProviders st)\<rparr>);
          st2 = (case placeholderMenuItem st1 of
                   Some item \<Rightarrow> do_effects [Dispose item] (st1\<lparr>placeholderMenuItem := None\<rparr>)
                 | None \<Rightarrow> st1)
      in updateAccountsMenuItem hasSessions st2)"

text \<open>The block under \<^verbatim>\<open>if (!this._authenticationProviders.size)\<close> is empty.\<close>

definition unregisterAuthenticationProvider ::
  "(AuthenticationProvider \<Rightarrow> bool) \<Rightarrow> AuthenticationServiceImpl \<Rightarrow> string \<Rightarrow>
   AuthenticationServiceImpl" where
  "unregisterAuthenticationProvider hasSessions st i =
     (case map_of (authenticationProviders st) i of
        Some provider \<Rightarrow>
          updateAccountsMenuItem hasSessions
            (do_effects [Provider_dispose provider, Fire_onDidUnregisterAuthenticationProvider i]
               (st\<lparr>authenticationProviders := AList.delete i (authenticationProviders st)\<rparr>))
      | None \<Rightarrow> st)"

text \<open>
  The body of \<^verbatim>\<open>Object.keys(existingRequestsForProvider).forEach\<close> in
  \<^verbatim>\<open>updateNewSessionRequests\<close>, for one key.  The loop carries the object
  \<open>existing\<close> (mutated in place by \<^verbatim>\<open>delete\<close>), the flag \<open>changed\<close> and the service.
  \<^verbatim>\<open>session.scopes.sort()\<close> also reorders the session's own array; the sessions belong
  to the provider and are no part of the service.
\<close>

definition retire_request ::
  "AuthenticationProvider \<Rightarrow> AuthenticationSession list \<Rightarrow> string \<Rightarrow>
   SessionRequestInfo \<times> bool \<times> AuthenticationServiceImpl \<Rightarrow>
   SessionRequestInfo \<times> bool \<times> AuthenticationServiceImpl" where
  "retire_request provider sessions requestedScopes acc =
     (case acc of (existing, changed, st) \<Rightarrow>
        if list_ex (\<lambda>session. hostScopeKey (session_scopes session) = requestedScopes) sessions then
          let st1 = (case map_of existing requestedScopes of
                       Some sessionRequest \<Rightarrow>
                         do_effects (map Dispose (disposables sessionRequest)) st
                     | None \<Rightarrow> st);
              existing1 = AList.delete requestedScopes existing
          in (existing1, True,
              if existing1 = [] then
                st1\<lparr>signInRequestItems :=
                      AList.delete (provider_id provider) (signInRequestItems st1)\<rparr>
              else
                st1\<lparr>signInRequestItems :=
                      AList.update (provider_id provider) existing1 (signInRequestItems st1)\<rparr>)
        else (existing, changed, st))"

text \<open>
  \<^verbatim>\<open>updateNewSessionRequests\<close>; \<open>sessions\<close> is what \<^verbatim>\<open>provider.getSessions()\<close> resolves
  to.  The \<^verbatim>\<open>else\<close> branch under \<^verbatim>\<open>if (changed)\<close> is empty.
\<close>

definition updateNewSessionRequests ::
  "AuthenticationSession list \<Rightarrow> AuthenticationServiceImpl \<Rightarrow> AuthenticationProvider \<Rightarrow>
   AuthenticationServiceImpl" where
  "updateNewSessionRequests sessions st provider =
     (case map_of (signInRequestItems st) (provider_id provider) of
        None \<Rightarrow> st
      | Some existingRequestsForProvider \<Rightarrow>
          (case fold (retire_request provider sessions) (map fst existingRequestsForProvider)
                  (existingRequestsForProvider, False, st) of
             (_, changed, st1) \<Rightarrow>
               if changed then
                 if signInRequestItems st1 = [] then
                   (case badgeDisposable st1 of
                      Some badge \<Rightarrow> do_effects [Dispose badge] (st1\<lparr>badgeDisposable := None\<rparr>)
                    | None \<Rightarrow> st1\<lparr>badgeDisposable := None\<rparr>)
                 else st1
               else st1))"

text \<open>Every array, the empty one too, is truthy: \<^verbatim>\<open>if (event.added)\<close> always passes.\<close>

definition array_truthy :: "'a list \<Rightarrow> bool" where
  "array_truthy xs = True"

text \<open>
  \<^verbatim>\<open>sessionsUpdate\<close>; \<open>hasSessions\<close> and \<open>sessions_of\<close> are what the providers'
  \<^verbatim>\<open>hasSessions()\<close> and \<^verbatim>\<open>getSessions()\<close> answer once
  \<^verbatim>\<open>provider.updateSessionItems(event)\<close> has settled.
\<close>

definition sessionsUpdate ::
  "(AuthenticationProvider \<Rightarrow> bool) \<Rightarrow> (AuthenticationProvider \<Rightarrow> AuthenticationSession list) \<Rightarrow>
   AuthenticationServiceImpl \<Rightarrow> string \<Rightarrow> AuthenticationSessionsChangeEvent \<Rightarrow>
   AuthenticationServiceImpl" where
  "sessionsUpdate hasSessions sessions_of st i event =
     (let st1 = do_effects [Fire_onDidChangeSessions i event] st
      in case map_of (authenticationProviders st1) i of
           Some provider \<Rightarrow>
             (let st2 = updateAccountsMenuItem hasSessions
                          (do_effects [Provider_updateSessionItems provider event] st1)
              in if array_truthy (event_added event)
                 then updateNewSessionRequests (sessions_of provider) st2 provider
                 else st2)
         | None \<Rightarrow> st1)"

text \<open>
  The properties every ordinary object inherits from \<^verbatim>\<open>Object.prototype\<close>: the seven of
  the language standard and the five of its annex for browsers.  Each holds a function
  (\<^verbatim>\<open>__proto__\<close>: the prototype object), which is truthy and has no property
  \<^verbatim>\<open>requestingExtensionIds\<close>.
\<close>

definition Object_prototype_properties :: "string list" where
  "Object_prototype_properties =
     [''constructor'', ''hasOwnProperty'', ''isPrototypeOf'', ''propertyIsEnumerable'',
      ''toLocaleString'', ''toString'', ''valueOf'', ''__proto__'', ''__defineGetter__'',
      ''__defineSetter__'', ''__lookupGetter__'', ''__lookupSetter__'']"

text \<open>
  \<^verbatim>\<open>requestNewSession\<close>.  Everything after the early \<^verbatim>\<open>return\<close> is commented out in
  the source, so both branches end the same way.  \<^verbatim>\<open>providerRequests[scopesList]\<close> reads
  an own property of the object or, when there is none of that name, an inherited one;
  on an inherited one \<^verbatim>\<open>.requestingExtensionIds\<close> is \<^verbatim>\<open>undefined\<close> and
  \<^verbatim>\<open>.indexOf\<close> on it raises.  \<^verbatim>\<open>scopes.sort()\<close> sorts the caller's array in place.
  The result is the error raised or \<open>()\<close>, the service after the call, and the caller's
  array after the call.
\<close>

definition requestNewSession ::
  "AuthenticationServiceImpl \<Rightarrow> string \<Rightarrow> string list \<Rightarrow> string \<Rightarrow> string \<Rightarrow>
   (error + unit) \<times> AuthenticationServiceImpl \<times> string list" where
  "requestNewSession st providerId scopes extensionId extensionName =
     (case map_of (authenticationProviders st) providerId of
        Some provider \<Rightarrow>
          (let providerRequests = map_of (signInRequestItems st) providerId;
               sorted_scopes = sort scopes;
               scopesList = hostScopeKey scopes;
               extensionHasExistingRequest =
                 (case providerRequests of
                    None \<Rightarrow> Inr False
                  | Some requests \<Rightarrow>
                      (case map_of requests scopesList of
                         Some request \<Rightarrow> Inr (extensionId \<in> set (requestingExtensionIds request))
                       | None \<Rightarrow>
                           if scopesList \<in> set Object_prototype_properties then Inl TypeError
                           else Inr False))
           in case extensionHasExistingRequest of
                Inl e \<Rightarrow> (Inl e, st, sorted_scopes)
              | Inr True \<Rightarrow> (Inr (), st, sorted_scopes)
              | Inr False \<Rightarrow> (Inr (), st, sorted_scopes))
      | None \<Rightarrow> (Inr (), st, scopes))"

text \<open>
  The states of the service that calls of its public methods produce from the
  constructed one.  The other public methods leave the service as it is.
\<close>

inductive reachable :: "AuthenticationServiceImpl \<Rightarrow> bool" where
  constructed: "reachable service0"
| registered:
    "reachable st \<Longrightarrow>
     reachable (registerAuthenticationProvider hasSessions st i authenticationProvider)"
| unregistered:
    "reachable st \<Longrightarrow> reachable (unregisterAuthenticationProvider hasSessions st i)"
| sessions_updated:
    "reachable st \<Longrightarrow> reachable (sessionsUpdate hasSessions sessions_of st i event)"
| session_requested:
    "reachable st \<Longrightarrow>
     reachable (fst (snd (requestNewSession st providerId scopes extensionId extensionName)))"

text \<open>
  The operations that hand over to the provider.  \<open>answer\<close> is the provider's method:
  the result of the operation is what that method returns.
\<close>

definition getDisplayName :: "AuthenticationServiceImpl \<Rightarrow> string \<Rightarrow> error + string" where
  "getDisplayName st i =
     (case map_of (authenticationProviders st) i of
        Some authProvider \<Rightarrow> Inr (displayName authProvider)
      | None \<Rightarrow> Inl (UnknownProviderError i))"

definition supportsMultipleAccounts_of :: "AuthenticationServiceImpl \<Rightarrow> string \<Rightarrow> error + bool" where
  "supportsMultipleAccounts_of st i =
     (case map_of (authenticationProviders st) i of
        Some authProvider \<Rightarrow> Inr (supportsMultipleAccounts authProvider)
      | None \<Rightarrow> Inl (UnknownProviderError i))"

definition getSessions ::
  "(AuthenticationProvider \<Rightarrow> 'r) \<Rightarrow> AuthenticationServiceImpl \<Rightarrow> string \<Rightarrow> error + 'r" where
  "getSessions answer st i =
     (case map_of (authenticationProviders st) i of
        Some authProvider \<Rightarrow> Inr (answer authProvider)
      | None \<Rightarrow> Inl (UnknownProviderError i))"

definition login ::
  "(AuthenticationProvider \<Rightarrow> string list \<Rightarrow> 'r) \<Rightarrow> AuthenticationServiceImpl \<Rightarrow> string \<Rightarrow>
   string list \<Rightarrow> error + 'r" where
  "login answer st i scopes =
     (case map_of (authenticationProviders st) i of
        Some authProvider \<Rightarrow> Inr (answer authProvider scopes)
      | None \<Rightarrow> Inl (UnknownProviderError i))"

definition logout ::
  "(AuthenticationProvider \<Rightarrow> string \<Rightarrow> 'r) \<Rightarrow> AuthenticationServiceImpl \<Rightarrow> string \<Rightarrow>
   string \<Rightarrow> error + 'r" where
  "logout answer st i sessionId =
     (case map_of (authenticationProviders st) i of
        Some authProvider \<Rightarrow> Inr (answer authProvider sessionId)
      | None \<Rightarrow> Inl (UnknownProviderError i))"

definition signOutOfAccount ::
  "(AuthenticationProvider \<Rightarrow> string \<Rightarrow> 'r) \<Rightarrow> AuthenticationServiceImpl \<Rightarrow> string \<Rightarrow>
   string \<Rightarrow> error + 'r" where
  "signOutOfAccount answer st i accountName =
     (case map_of (authenticationProviders st) i of
        Some authProvider \<Rightarrow> Inr (answer authProvider accountName)
      | None \<Rightarrow> Inl (UnknownProviderError i))"

section \<open>The plugin-side bridge (AuthenticationExtImpl)\<close>

text \<open>\<^verbatim>\<open>requestingExtension.model\<close>: the fields \<^verbatim>\<open>getSession\<close> reads.\<close>

record PluginModel =
  model_id :: string
  model_name :: string
  model_displayName :: "string option"

record AuthenticationGetSessionOptions =
  createIfNone :: "bool option"
  clearSessionPreference :: "bool option"

text \<open>An absent option is \<^verbatim>\<open>undefined\<close>, which is falsy.\<close>

definition truthy :: "bool option \<Rightarrow> bool" where
  "truthy b = (b = Some True)"

text \<open>The data properties of \<^verbatim>\<open>theia.AuthenticationProvider\<close>.\<close>

record ExtProvider =
  ext_id :: string
  ext_displayName :: string
  ext_supportsMultipleAccounts :: bool

text \<open>The calls the bridge makes on the RPC proxy and on a provider, in order.\<close>

datatype call =
    Proxy_getSession string "string list" string string AuthenticationGetSessionOptions
  | Proxy_getSessionsPrompt string string string string string
  | Proxy_selectSession string string string string "AuthenticationSession list" "string list" bool
  | Proxy_loginPrompt string string
  | Proxy_setTrustedExtension string string string string
  | Proxy_requestNewSession string "string list" string string
  | Proxy_registerAuthenticationProvider string string bool
  | Proxy_unregisterAuthenticationProvider string
  | Provider_getSessions string
  | Provider_login string "string list"
  | Provider_onDidChangeSessions string
  | Listener_dispose string

record AuthenticationExtImpl =
  ext_authenticationProviders :: "(string \<times> ExtProvider) list"
  calls :: "call list"

definition do_call :: "call \<Rightarrow> AuthenticationExtImpl \<Rightarrow> AuthenticationExtImpl" where
  "do_call c st = st\<lparr>calls := calls st @ [c]\<rparr>"

text \<open>
  What the collaborators answer during one \<^verbatim>\<open>getSession\<close>: the host's
  \<^verbatim>\<open>$getSession\<close> (its outcome is the outcome of the call, error or value), the two
  consent prompts, the selection, and the provider's \<^verbatim>\<open>getSessions()\<close> and
  \<^verbatim>\<open>login(scopes)\<close>.
\<close>

record collaborators =
  remote_getSession :: "error + AuthenticationSession option"
  getSessionsPrompt :: bool
  selectSession :: AuthenticationSession
  loginPrompt :: bool
  provider_getSessions :: "AuthenticationSession list"
  provider_login :: AuthenticationSession

text \<open>
  \<^verbatim>\<open>requestingExtension.model.displayName || requestingExtension.model.name\<close>: an
  absent or empty display name gives the name.
\<close>

definition extensionName_of :: "PluginModel \<Rightarrow> string" where
  "extensionName_of requestingExtension =
     (case model_displayName requestingExtension of
        Some d \<Rightarrow> if d = [] then model_name requestingExtension else d
      | None \<Rightarrow> model_name requestingExtension)"

text \<open>
  \<^verbatim>\<open>requestingExtension.model.id.toLowerCase()\<close>.  \<^verbatim>\<open>String.prototype.toLowerCase\<close>
  belongs to the platform; \<open>toLowerCase\<close> is what it computes.
\<close>

definition extensionId_of :: "(string \<Rightarrow> string) \<Rightarrow> PluginModel \<Rightarrow> string" where
  "extensionId_of toLowerCase requestingExtension = toLowerCase (model_id requestingExtension)"

text \<open>
  \<^verbatim>\<open>getSession\<close>.  \<^verbatim>\<open>scopes.sort()\<close> and \<^verbatim>\<open>s.scopes.sort()\<close> sort in place, so every
  later use of \<open>scopes\<close> and of the sessions sees the sorted arrays; the call to
  \<^verbatim>\<open>$getSession\<close> comes before the sort and passes \<open>scopes\<close> as given.
\<close>

definition getSession ::
  "(string \<Rightarrow> string) \<Rightarrow> collaborators \<Rightarrow> AuthenticationExtImpl \<Rightarrow> PluginModel \<Rightarrow> string \<Rightarrow>
   string list \<Rightarrow> AuthenticationGetSessionOptions \<Rightarrow>
   (error + AuthenticationSession option) \<times> AuthenticationExtImpl" where
  "getSession toLowerCase env st requestingExtension providerId scopes options =
     (let extensionName = extensionName_of requestingExtension;
          extensionId = extensionId_of toLowerCase requestingExtension
      in case map_of (ext_authenticationProviders st) providerId of
           None \<Rightarrow>
             (remote_getSession env,
              do_call (Proxy_getSession providerId scopes extensionId extensionName options) st)
         | Some provider \<Rightarrow>
             (let sorted_scopes = sort scopes;
                  orderedScopes = join '' '' sorted_scopes;
                  st1 = do_call (Provider_getSessions (ext_id provider)) st;
                  sessions =
                    filter (\<lambda>s. join '' '' (session_scopes s) = orderedScopes)
                      (map (\<lambda>s. s\<lparr>session_scopes := sort (session_scopes s)\<rparr>)
                         (provider_getSessions env))
              in case sessions of
                   session # _ \<Rightarrow>
                     if \<not> ext_supportsMultipleAccounts provider then
                       (let st2 = do_call (Proxy_getSessionsPrompt providerId
                                    (account_displayName (session_account session))
                                    (ext_displayName provider) extensionId extensionName) st1
                        in if getSessionsPrompt env then (Inr (Some session), st2)
                           else (Inl ConsentDeniedError, st2))
                     else
                       (let st2 = do_call (Proxy_selectSession providerId
                                    (ext_displayName provider) extensionId extensionName sessions
                                    sorted_scopes (truthy (clearSessionPreference options))) st1
                        in (Inr (find (\<lambda>session. session_id session =
                                         session_id (selectSession env)) sessions), st2))
                 | [] \<Rightarrow>
                     if truthy (createIfNone options) then
                       (let st2 = do_call (Proxy_loginPrompt (ext_displayName provider)
                                    extensionName) st1
                        in if \<not> loginPrompt env then (Inl ConsentDeniedError, st2)
                           else
                             (let st3 = do_call (Provider_login (ext_id provider) sorted_scopes) st2;
                                  session = provider_login env;
                                  st4 = do_call (Proxy_setTrustedExtension providerId
                                          (account_displayName (session_account session))
                                          extensionId extensionName) st3
                              in (Inr (Some session), st4)))
                     else
                       (Inr None,
                        do_call (Proxy_requestNewSession providerId sorted_scopes extensionId
                                   extensionName) st1)))"


text \<open>What the \<^verbatim>\<open>Disposable\<close> returned by the registration does when disposed.\<close>

definition dispose_registration ::
  "AuthenticationExtImpl \<Rightarrow> ExtProvider \<Rightarrow> AuthenticationExtImpl" where
  "dispose_registration st provider =
     do_call (Proxy_unregisterAuthenticationProvider (ext_id provider))
       ((do_call (Listener_dispose (ext_id provider)) st)
          \<lparr>ext_authenticationProviders :=
             AList.delete (ext_id provider) (ext_authenticationProviders st)\<rparr>)"

section \<open>The host's handler of $getSession\<close>

text \<open>
  Modelled from the spec: the host-side handler of \<^verbatim>\<open>$getSession\<close>, which the bridge
  calls through its proxy and whose code is not among the sources.  Section 4.2 of the
  spec, step 1: "Look up provider; fails with \<open>UnknownProviderError\<close> if absent."  For
  a provider that is present, \<open>resolve_found\<close> is the outcome of the steps 2 to 4.
\<close>

definition host_getSession ::
  "(AuthenticationProvider \<Rightarrow> error + AuthenticationSession option) \<Rightarrow>
   AuthenticationServiceImpl \<Rightarrow> string \<Rightarrow> error + AuthenticationSession option" where
  "host_getSession resolve_found service providerId =
     (case map_of (authenticationProviders service) providerId of
        None \<Rightarrow> Inl (UnknownProviderError providerId)
      | Some provider \<Rightarrow> resolve_found provider)"

section \<open>Predicates for stating the properties\<close>

text \<open>\<open>x\<close> is a prefix of \<open>y\<close>.\<close>

definition is_prefix :: "string \<Rightarrow> string \<Rightarrow> bool" where
  "is_prefix x y = (take (length x) y = x)"

text \<open>No scope is empty and none is a proper prefix of another.\<close>

definition prefix_free :: "string list \<Rightarrow> bool" where
  "prefix_free xs = (\<forall>x\<in>set xs. x \<noteq> [] \<and> (\<forall>y\<in>set xs. is_prefix x y \<longrightarrow> x = y))"

text \<open>No scope contains a space.\<close>

definition space_free :: "string list \<Rightarrow> bool" where
  "space_free xs = (\<forall>x\<in>set xs. CHR '' '' \<notin> set x)"

text \<open>The calls made between the bridge \<open>st\<close> and the later bridge \<open>st'\<close>.\<close>

definition new_calls :: "AuthenticationExtImpl \<Rightarrow> AuthenticationExtImpl \<Rightarrow> call list" where
  "new_calls st st' = drop (length (calls st)) (calls st')"

fun is_login :: "call \<Rightarrow> bool" where
  "is_login (Provider_login _ _) = True"
| "is_login _ = False"

text \<open>
  The provider's sessions whose scopes canonicalise, on the plugin side, to the key of
  \<open>scopes\<close>.
\<close>

definition matching :: "collaborators \<Rightarrow> string list \<Rightarrow> AuthenticationSession list" where
  "matching env scopes =
     filter (\<lambda>s. pluginScopeKey (session_scopes s) = pluginScopeKey scopes)
       (provider_getSessions env)"


section \<open>Example values\<close>

definition acme :: AuthenticationProvider where
  "acme = \<lparr>provider_id = ''acme'', supportsMultipleAccounts = False, displayName = ''Acme''\<rparr>"


definition no_sessions :: "AuthenticationProvider \<Rightarrow> bool" where
  "no_sessions provider = False"

text \<open>The service after \<open>acme\<close> has been registered under its id.\<close>

definition service_acme :: AuthenticationServiceImpl where
  "service_acme = service0\<lparr>authenticationProviders := [(''acme'', acme)],
     effects := [Fire_onDidRegisterAuthenticationProvider ''acme'']\<rparr>"

definition session_repo :: AuthenticationSession where
  "session_repo = \<lparr>session_id = ''s1'', session_accessToken = ''token'',
     session_account = \<lparr>account_displayName = ''alice'', account_id = ''a1''\<rparr>,
     session_scopes = [''repo'']\<rparr>"

definition ext_acme :: ExtProvider where
  "ext_acme = \<lparr>ext_id = ''acme'', ext_displayName = ''Acme'', ext_supportsMultipleAccounts = False\<rparr>"


definition bridge_acme :: AuthenticationExtImpl where
  "bridge_acme = \<lparr>ext_authenticationProviders = [(''acme'', ext_acme)], calls = []\<rparr>"

definition ext_foo :: PluginModel where
  "ext_foo = \<lparr>model_id = ''Ext.Foo'', model_name = ''foo'', model_displayName = Some ''Foo''\<rparr>"

text \<open>
  A function that agrees with \<^verbatim>\<open>toLowerCase\<close> on the id of \<open>ext_foo\<close>, the only string
  it is applied to.
\<close>

definition lower_foo :: "string \<Rightarrow> string" where
  "lower_foo s = (if s = ''Ext.Foo'' then ''ext.foo'' else s)"

definition env0 :: collaborators where
  "env0 = \<lparr>remote_getSession = Inr (Some session_repo), getSessionsPrompt = False,
     selectSession = session_repo, loginPrompt = False, provider_getSessions = [],
     provider_login = session_repo\<rparr>"

text \<open>As \<open>env0\<close>, with a provider that holds one session, for the scope \<open>repo\<close>.\<close>

definition env_repo :: collaborators where
  "env_repo = env0\<lparr>provider_getSessions := [session_repo]\<rparr>"

text \<open>
  As \<open>env0\<close>, with a host whose registry is that of \<open>service_acme\<close> answering
  \<^verbatim>\<open>$getSession\<close> for the id \<open>other\<close>.
\<close>

definition env_host :: collaborators where
  "env_host = env0\<lparr>remote_getSession :=
     host_getSession (\<lambda>provider. Inr None) service_acme ''other''\<rparr>"

section \<open>Properties of the canonical keys\<close>

lemma join_Nil_concat: "join [] xs = concat xs"
  by (induction xs rule: induct_list012) simp_all

lemma sort_permutation_eq:
  fixes xs ys :: "string list"
  assumes "mset xs = mset ys"
  shows "sort xs = sort ys"
  using assms by (metis properties_for_sort mset_sort sorted_sort)

lemma concat_prefix_free_inj:
  "prefix_free (xs @ ys) \<Longrightarrow> concat xs = concat ys \<Longrightarrow> xs = ys"
proof (induction xs arbitrary: ys)
  case Nil
  then show ?case by (cases ys) (auto simp: prefix_free_def)
next
  case (Cons x xs)
  show ?case
  proof (cases ys)
    case Nil
    then show ?thesis using Cons.prems by (auto simp: prefix_free_def)
  next
    case (Cons y ys')
    from Cons.prems Cons have e: "x @ concat xs = y @ concat ys'" by simp
    then have "is_prefix x y \<or> is_prefix y x"
      by (auto simp: append_eq_append_conv2 is_prefix_def)
    moreover have "is_prefix x y \<longrightarrow> x = y" "is_prefix y x \<longrightarrow> y = x"
      using Cons.prems(1) Cons by (auto simp: prefix_free_def)
    ultimately have xy: "x = y" by blast
    with e have c: "concat xs = concat ys'" by simp
    have "prefix_free (xs @ ys')" using Cons.prems(1) Cons by (auto simp: prefix_free_def)
    with Cons.IH [of ys'] c xy Cons show ?thesis by simp
  qed
qed

lemma split_at_sep:
  "x @ c # r1 = y @ c # r2 \<Longrightarrow> c \<notin> set x \<Longrightarrow> c \<notin> set y \<Longrightarrow> x = y \<and> r1 = r2"
  by (induction x arbitrary: y) (case_tac y; auto)+

lemma join_space_has_space: "CHR '' '' \<in> set (join '' '' (x # y # ys))"
  by simp

lemma join_space_inj:
  "space_free (xs @ ys) \<Longrightarrow> xs \<noteq> [] \<Longrightarrow> ys \<noteq> [] \<Longrightarrow>
   join '' '' xs = join '' '' ys \<Longrightarrow> xs = ys"
proof (induction xs arbitrary: ys rule: induct_list012)
  case 1
  then show ?case by simp
next
  case (2 x)
  then obtain y ys' where ys: "ys = y # ys'" by (cases ys) auto
  show ?case
  proof (cases ys')
    case Nil
    with 2 ys show ?thesis by simp
  next
    case (Cons y' ys'')
    with 2 ys have "CHR '' '' \<in> set x" by (metis join.simps(2) join_space_has_space)
    with 2 show ?thesis by (simp add: space_free_def)
  qed
next
  case (3 x x' xs)
  then obtain y ys' where ys: "ys = y # ys'" by (cases ys) auto
  show ?case
  proof (cases ys')
    case Nil
    with 3 ys have "CHR '' '' \<in> set y" by (metis join.simps(2) join_space_has_space)
    with 3 ys show ?thesis by (simp add: space_free_def)
  next
    case (Cons y' ys'')
    from 3(3) ys have sf: "CHR '' '' \<notin> set x" "CHR '' '' \<notin> set y"
      by (simp_all add: space_free_def)
    from 3(6) ys Cons
    have "x @ CHR '' '' # join '' '' (x' # xs) = y @ CHR '' '' # join '' '' (y' # ys'')"
      by simp
    from split_at_sep [OF this sf]
    have xy: "x = y" and r: "join '' '' (x' # xs) = join '' '' ys'"
      using Cons by simp_all
    have "space_free ((x' # xs) @ ys')" using 3(3) ys by (simp add: space_free_def)
    from 3(2) [OF this _ _ r] Cons have "x' # xs = ys'" by simp
    with xy ys show ?thesis by simp
  qed
qed

lemma sort_eq_Nil: "(sort xs = []) = (xs = [])"
  using length_sort [of "\<lambda>x. x" xs] by (cases xs) auto

text \<open>
  Claim C8.  Scope lists that are permutations of each other (equal as multisets) have
  the same canonical key, under the host-side canonicalisation (sort, join with the empty
  string) and under the plugin-side one (sort, join with a space).
\<close>

theorem canonical_key_permutation_invariant:
  assumes "mset S1 = mset S2"
  shows "hostScopeKey S1 = hostScopeKey S2 \<and> pluginScopeKey S1 = pluginScopeKey S2"
  using sort_permutation_eq [OF assms] by (simp add: hostScopeKey_def pluginScopeKey_def)

theorem canonical_key_permutation_invariant_witness:
  "mset [''repo'', ''user'', ''gist''] = mset [''user'', ''gist'', ''repo'']
   \<and> hostScopeKey [''repo'', ''user'', ''gist''] = hostScopeKey [''user'', ''gist'', ''repo'']
   \<and> pluginScopeKey [''repo'', ''user'', ''gist''] = pluginScopeKey [''user'', ''gist'', ''repo'']"
proof -
  have h: "mset [''repo'', ''user'', ''gist''] = mset [''user'', ''gist'', ''repo'']"
    by (simp add: add.commute add.left_commute)
  show ?thesis using h canonical_key_permutation_invariant [OF h] by simp
qed

lemma host_key_eq_iff:
  fixes S1 S2 :: "string list"
  assumes "prefix_free (S1 @ S2)"
  shows "hostScopeKey S1 = hostScopeKey S2 \<longleftrightarrow> mset S1 = mset S2"
proof
  assume "hostScopeKey S1 = hostScopeKey S2"
  then have c: "concat (sort S1) = concat (sort S2)"
    by (simp add: hostScopeKey_def join_Nil_concat)
  have "prefix_free (sort S1 @ sort S2)" using assms by (simp add: prefix_free_def)
  from concat_prefix_free_inj [OF this c] have "mset (sort S1) = mset (sort S2)" by simp
  then show "mset S1 = mset S2" by simp
next
  assume "mset S1 = mset S2"
  from sort_permutation_eq [OF this] show "hostScopeKey S1 = hostScopeKey S2"
    by (simp add: hostScopeKey_def)
qed

lemma plugin_key_eq_iff:
  fixes S1 S2 :: "string list"
  assumes "space_free (S1 @ S2)" "S1 = [] \<longleftrightarrow> S2 = []"
  shows "pluginScopeKey S1 = pluginScopeKey S2 \<longleftrightarrow> mset S1 = mset S2"
proof
  assume k: "pluginScopeKey S1 = pluginScopeKey S2"
  show "mset S1 = mset S2"
  proof (cases "S1 = []")
    case True
    with assms show ?thesis by simp
  next
    case False
    with assms have ne: "sort S1 \<noteq> []" "sort S2 \<noteq> []" by (simp_all add: sort_eq_Nil)
    have "space_free (sort S1 @ sort S2)" using assms by (simp add: space_free_def)
    from join_space_inj [OF this ne] k have "sort S1 = sort S2"
      by (simp add: pluginScopeKey_def)
    then have "mset (sort S1) = mset (sort S2)" by simp
    then show ?thesis by simp
  qed
next
  assume "mset S1 = mset S2"
  from sort_permutation_eq [OF this] show "pluginScopeKey S1 = pluginScopeKey S2"
    by (simp add: pluginScopeKey_def)
qed

text \<open>
  Claim C9, as stated: equal canonical keys only for permutations of the same scopes.
  It fails on both sides, because the join does not keep the boundaries between scopes:
  on the host side \<open>["ab", "c"]\<close> and \<open>["a", "bc"]\<close> both give \<open>"abc"\<close>; on the
  plugin side \<open>["a b"]\<close> and \<open>["b", "a"]\<close> both give \<open>"a b"\<close>.
\<close>

theorem canonical_key_not_injective:
  "hostScopeKey [''ab'', ''c''] = hostScopeKey [''a'', ''bc'']
   \<and> mset [''ab'', ''c''] \<noteq> mset [''a'', ''bc'']
   \<and> pluginScopeKey [''a b''] = pluginScopeKey [''b'', ''a'']
   \<and> mset [''a b''] \<noteq> mset [''b'', ''a'']"
proof -
  have "''ab'' \<in># mset [''ab'', ''c'']" "\<not> ''ab'' \<in># mset [''a'', ''bc'']" by simp_all
  then have 1: "mset [''ab'', ''c''] \<noteq> mset [''a'', ''bc'']" by metis
  have "size (mset [''a b'']) \<noteq> size (mset [''b'', ''a''])" by simp
  then have 2: "mset [''a b''] \<noteq> mset [''b'', ''a'']" by metis
  show ?thesis using 1 2 by (simp add: hostScopeKey_def pluginScopeKey_def)
qed

text \<open>
  Claim C9, amended.  Host side: when no scope of the two lists is empty and none is a
  proper prefix of another, the keys are equal exactly when the lists are permutations of
  each other.  Plugin side: when no scope contains a space and the lists are both empty
  or both non-empty, the keys are equal exactly when the lists are permutations of each
  other.
\<close>

theorem canonical_key_equal_iff_permutation:
  "(prefix_free (S1 @ S2) \<longrightarrow> (hostScopeKey S1 = hostScopeKey S2 \<longleftrightarrow> mset S1 = mset S2))
   \<and> (space_free (S1 @ S2) \<and> (S1 = [] \<longleftrightarrow> S2 = []) \<longrightarrow>
        (pluginScopeKey S1 = pluginScopeKey S2 \<longleftrightarrow> mset S1 = mset S2))"
  using host_key_eq_iff [of S1 S2] plugin_key_eq_iff [of S1 S2] by blast

theorem canonical_key_equal_iff_permutation_witness:
  "prefix_free ([''repo'', ''user:email''] @ [''user:email'', ''gist''])
   \<and> space_free ([''repo'', ''user:email''] @ [''user:email'', ''gist''])
   \<and> ([''repo'', ''user:email''] = [] \<longleftrightarrow> [''user:email'', ''gist''] = [])
   \<and> hostScopeKey [''repo'', ''user:email''] \<noteq> hostScopeKey [''user:email'', ''gist'']
   \<and> pluginScopeKey [''repo'', ''user:email''] \<noteq> pluginScopeKey [''user:email'', ''gist'']
   \<and> mset [''repo'', ''user:email''] \<noteq> mset [''user:email'', ''gist'']"
proof -
  have p: "prefix_free ([''repo'', ''user:email''] @ [''user:email'', ''gist''])"
    by (simp add: prefix_free_def is_prefix_def)
  have s: "space_free ([''repo'', ''user:email''] @ [''user:email'', ''gist''])"
    by (simp add: space_free_def)
  have "''repo'' \<in># mset [''repo'', ''user:email'']"
    "\<not> ''repo'' \<in># mset [''user:email'', ''gist'']" by simp_all
  then have m: "mset [''repo'', ''user:email''] \<noteq> mset [''user:email'', ''gist'']" by metis
  show ?thesis
    using p s m canonical_key_equal_iff_permutation
      [of "[''repo'', ''user:email'']" "[''user:email'', ''gist'']"]
    by simp
qed

section \<open>Sign-in requests (requestNewSession)\<close>

lemma sort_sort: "sort (sort xs) = sort xs"
  by (simp add: sorted_sort_id)

text \<open>
  Claim C10.  For a provider id that is not in the registry, \<^verbatim>\<open>requestNewSession\<close>
  returns without an error and leaves every field of the service as it was; the caller's
  scopes array is not touched either.
\<close>

theorem requestNewSession_unknown_provider_noop:
  assumes "map_of (authenticationProviders st) providerId = None"
  shows "requestNewSession st providerId scopes extensionId extensionName
           = (Inr (), st, scopes)"
  using assms by (simp add: requestNewSession_def)

theorem requestNewSession_unknown_provider_noop_witness:
  "map_of (authenticationProviders service_acme) ''other'' = None
   \<and> requestNewSession service_acme ''other'' [''user'', ''repo''] ''ext.foo'' ''Foo''
       = (Inr (), service_acme, [''user'', ''repo''])"
proof -
  have h: "map_of (authenticationProviders service_acme) ''other'' = None"
    by (simp add: service_acme_def service0_def)
  show ?thesis using h requestNewSession_unknown_provider_noop [OF h] by simp
qed

text \<open>
  Claim C2, as stated: a first request by a requester creates (or extends) the Session
  Request entry.  It fails: the code that would record the request is commented out, so
  with \<open>acme\<close> registered and nothing pending, the call leaves no entry for \<open>acme\<close>.
\<close>

theorem requestNewSession_records_nothing:
  "map_of (authenticationProviders service_acme) ''acme'' = Some acme
   \<and> map_of (signInRequestItems service_acme) ''acme'' = None
   \<and> map_of (signInRequestItems
        (fst (snd (requestNewSession service_acme ''acme'' [''repo''] ''ext.foo'' ''Foo''))))
        ''acme'' = None"
  by (simp add: requestNewSession_def service_acme_def service0_def)

text \<open>
  Claim C2, amended.  For a registered provider with no entry in the map of sign-in
  requests, \<^verbatim>\<open>requestNewSession\<close> returns without an error, sorts the caller's scopes
  array and leaves the service as it was: no Session Request entry is created or
  extended.  Calling it again with the same arguments does the same, so no second entry
  and no duplicate requester id appears.
\<close>

theorem requestNewSession_state_unchanged:
  assumes "map_of (authenticationProviders st) providerId = Some provider"
    and "map_of (signInRequestItems st) providerId = None"
  shows "requestNewSession st providerId scopes extensionId extensionName
           = (Inr (), st, sort scopes)
    \<and> requestNewSession st providerId (sort scopes) extensionId extensionName
        = (Inr (), st, sort scopes)"
  using assms by (simp add: requestNewSession_def Let_def sort_sort)

theorem requestNewSession_state_unchanged_witness:
  "map_of (authenticationProviders service_acme) ''acme'' = Some acme
   \<and> map_of (signInRequestItems service_acme) ''acme'' = None
   \<and> requestNewSession service_acme ''acme'' [''user'', ''repo''] ''ext.foo'' ''Foo''
       = (Inr (), service_acme, [''repo'', ''user''])
   \<and> requestNewSession service_acme ''acme'' [''constructor''] ''ext.foo'' ''Foo''
       = (Inr (), service_acme, [''constructor''])"
proof -
  have h: "map_of (authenticationProviders service_acme) ''acme'' = Some acme"
    by (simp add: service_acme_def service0_def)
  have n: "map_of (signInRequestItems service_acme) ''acme'' = None"
    by (simp add: service_acme_def service0_def)
  show ?thesis
    using h n
      requestNewSession_state_unchanged [OF h n, of "[''user'', ''repo'']" "''ext.foo''" "''Foo''"]
      requestNewSession_state_unchanged [OF h n, of "[''constructor'']" "''ext.foo''" "''Foo''"]
    by simp
qed

section \<open>The states the service reaches\<close>

lemma updateAccountsMenuItem_fields [simp]:
  "authenticationProviders (updateAccountsMenuItem hs st) = authenticationProviders st"
  "signInRequestItems (updateAccountsMenuItem hs st) = signInRequestItems st"
  "badgeDisposable (updateAccountsMenuItem hs st) = badgeDisposable st"
  "placeholderMenuItem (updateAccountsMenuItem hs st) = placeholderMenuItem st"
  by (simp_all add: updateAccountsMenuItem_def do_effects_def Let_def split: option.splits)

lemma registerAuthenticationProvider_signInRequestItems:
  "signInRequestItems (registerAuthenticationProvider hs st i p) = signInRequestItems st"
  by (simp add: registerAuthenticationProvider_def Let_def do_effects_def split: option.splits)

lemma unregisterAuthenticationProvider_signInRequestItems:
  "signInRequestItems (unregisterAuthenticationProvider hs st i) = signInRequestItems st"
  by (simp add: unregisterAuthenticationProvider_def do_effects_def split: option.splits)

lemma updateNewSessionRequests_no_requests:
  "signInRequestItems st = [] \<Longrightarrow> updateNewSessionRequests sessions st provider = st"
  by (simp add: updateNewSessionRequests_def)

lemma sessionsUpdate_no_requests:
  "signInRequestItems st = [] \<Longrightarrow>
   signInRequestItems (sessionsUpdate hs sessions_of st i event) = []"
  by (simp add: sessionsUpdate_def Let_def do_effects_def updateNewSessionRequests_no_requests
      split: option.splits)

lemma requestNewSession_service:
  "fst (snd (requestNewSession st providerId scopes extensionId extensionName)) = st"
  by (simp add: requestNewSession_def Let_def split: option.splits sum.splits bool.splits)

text \<open>
  The map of sign-in requests is empty in every state the service reaches: it starts
  empty, and the only writes to it, in \<^verbatim>\<open>updateNewSessionRequests\<close>, come after an entry
  was found in it.
\<close>

lemma reachable_signInRequestItems_empty:
  "reachable st \<Longrightarrow> signInRequestItems st = []"
proof (induction rule: reachable.induct)
  case constructed
  show ?case by (simp add: service0_def)
next
  case (registered st hasSessions i authenticationProvider)
  then show ?case by (simp add: registerAuthenticationProvider_signInRequestItems)
next
  case (unregistered st hasSessions i)
  then show ?case by (simp add: unregisterAuthenticationProvider_signInRequestItems)
next
  case (sessions_updated st hasSessions sessions_of i event)
  then show ?case by (simp add: sessionsUpdate_no_requests)
next
  case (session_requested st providerId scopes extensionId extensionName)
  then show ?case by (simp add: requestNewSession_service)
qed

lemma reachable_service_acme: "reachable service_acme"
proof -
  have "registerAuthenticationProvider no_sessions service0 ''acme'' acme = service_acme"
    by (simp add: registerAuthenticationProvider_def service0_def service_acme_def
        do_effects_def updateAccountsMenuItem_def)
  with reachable.registered [OF reachable.constructed, of no_sessions "''acme''" acme]
  show ?thesis by simp
qed

section \<open>Operations on an unknown provider\<close>

text \<open>
  \<^verbatim>\<open>getSession\<close> of the bridge, when its own registry has no provider under the id,
  makes one call to the host's \<^verbatim>\<open>$getSession\<close>, with the scopes as given, and returns
  the host's outcome.
\<close>

lemma getSession_forwards:
  assumes "map_of (ext_authenticationProviders bridge) i = None"
  shows "getSession toLowerCase env bridge requestingExtension i scopes options =
          (remote_getSession env,
           do_call (Proxy_getSession i scopes (extensionId_of toLowerCase requestingExtension)
                      (extensionName_of requestingExtension) options) bridge)"
  using assms by (simp add: getSession_def)

text \<open>
  Claim C7.  When no provider is registered under the id, the host-service operations
  \<^verbatim>\<open>getSessions\<close>, \<^verbatim>\<open>getDisplayName\<close>, \<^verbatim>\<open>supportsMultipleAccounts\<close>, \<^verbatim>\<open>login\<close>,
  \<^verbatim>\<open>logout\<close> and \<^verbatim>\<open>signOutOfAccount\<close> fail with \<open>UnknownProviderError\<close>; and
  \<^verbatim>\<open>getSession\<close> of the bridge, whose own registry has no provider under the id either
  and whose proxy is answered by the host's handler, fails with \<open>UnknownProviderError\<close>
  too, after its one call to \<^verbatim>\<open>$getSession\<close>.
\<close>

theorem unknown_provider_operations:
  assumes "map_of (authenticationProviders st) i = None"
  shows "getSessions a1 st i = Inl (UnknownProviderError i)
    \<and> getDisplayName st i = Inl (UnknownProviderError i)
    \<and> supportsMultipleAccounts_of st i = Inl (UnknownProviderError i)
    \<and> login a2 st i scopes = Inl (UnknownProviderError i)
    \<and> logout a3 st i sessionId = Inl (UnknownProviderError i)
    \<and> signOutOfAccount a4 st i accountName = Inl (UnknownProviderError i)
    \<and> (map_of (ext_authenticationProviders bridge) i = None
         \<and> remote_getSession env = host_getSession resolve_found st i \<longrightarrow>
       getSession toLowerCase env bridge requestingExtension i scopes' options =
         (Inl (UnknownProviderError i),
          do_call (Proxy_getSession i scopes' (extensionId_of toLowerCase requestingExtension)
                     (extensionName_of requestingExtension) options) bridge))"
  using assms
  by (simp add: getSessions_def getDisplayName_def supportsMultipleAccounts_of_def login_def
      logout_def signOutOfAccount_def getSession_forwards host_getSession_def)

theorem unknown_provider_operations_witness:
  "map_of (authenticationProviders service_acme) ''other'' = None
   \<and> map_of (ext_authenticationProviders bridge_acme) ''other'' = None
   \<and> remote_getSession env_host = host_getSession (\<lambda>provider. Inr None) service_acme ''other''
   \<and> getSessions (\<lambda>p. [session_repo]) service_acme ''other''
       = Inl (UnknownProviderError ''other'')
   \<and> getDisplayName service_acme ''other'' = Inl (UnknownProviderError ''other'')
   \<and> supportsMultipleAccounts_of service_acme ''other'' = Inl (UnknownProviderError ''other'')
   \<and> login (\<lambda>p s. session_repo) service_acme ''other'' [''repo'']
       = Inl (UnknownProviderError ''other'')
   \<and> logout (\<lambda>p s. ()) service_acme ''other'' ''s1'' = Inl (UnknownProviderError ''other'')
   \<and> signOutOfAccount (\<lambda>p s. ()) service_acme ''other'' ''alice''
       = Inl (UnknownProviderError ''other'')
   \<and> getSession lower_foo env_host bridge_acme ext_foo ''other'' [''user'', ''repo'']
        \<lparr>createIfNone = None, clearSessionPreference = None\<rparr>
       = (Inl (UnknownProviderError ''other''),
          \<lparr>ext_authenticationProviders = [(''acme'', ext_acme)],
            calls = [Proxy_getSession ''other'' [''user'', ''repo''] ''ext.foo'' ''Foo''
                       \<lparr>createIfNone = None, clearSessionPreference = None\<rparr>]\<rparr>)"
proof -
  have h1: "map_of (authenticationProviders service_acme) ''other'' = None"
    by (simp add: service_acme_def service0_def)
  have h2: "map_of (ext_authenticationProviders bridge_acme) ''other'' = None"
    by (simp add: bridge_acme_def)
  have h3: "remote_getSession env_host
      = host_getSession (\<lambda>provider. Inr None) service_acme ''other''"
    by (simp add: env_host_def)
  show ?thesis
    using h1 h2 h3
      unknown_provider_operations [OF h1, of "\<lambda>p. [session_repo]" "\<lambda>p s. session_repo"
        "[''repo'']" "\<lambda>p s. ()" "''s1''" "\<lambda>p s. ()" "''alice''" bridge_acme env_host
        "\<lambda>provider. Inr None" lower_foo ext_foo "[''user'', ''repo'']"
        "\<lparr>createIfNone = None, clearSessionPreference = None\<rparr>"]
    by (simp add: do_call_def bridge_acme_def extensionId_of_def extensionName_of_def
        ext_foo_def lower_foo_def)
qed

section \<open>Resolving a session (getSession)\<close>

lemma getSession_filter:
  "filter (\<lambda>s. join '' '' (session_scopes s) = join '' '' (sort scopes))
     (map (\<lambda>s. s\<lparr>session_scopes := sort (session_scopes s)\<rparr>) (provider_getSessions env))
   = map (\<lambda>s. s\<lparr>session_scopes := sort (session_scopes s)\<rparr>) (matching env scopes)"
  by (simp add: matching_def filter_map comp_def pluginScopeKey_def)

text \<open>
  Claim C5.  With a provider in the bridge's own registry, no session of the provider
  whose canonical scopes match the requested scopes, and \<^verbatim>\<open>createIfNone\<close> false or
  absent, \<^verbatim>\<open>getSession\<close> returns none without an error, and the calls it makes are the
  query of the provider's sessions and exactly one \<^verbatim>\<open>$requestNewSession\<close> for the
  provider id, the (sorted) scopes and the requester.
\<close>

theorem getSession_no_match_no_create:
  assumes "map_of (ext_authenticationProviders st) providerId = Some provider"
    and "matching env scopes = []"
    and "\<not> truthy (createIfNone options)"
  shows "fst (getSession toLowerCase env st requestingExtension providerId scopes options) = Inr None
    \<and> new_calls st (snd (getSession toLowerCase env st requestingExtension providerId scopes options))
        = [Provider_getSessions (ext_id provider),
           Proxy_requestNewSession providerId (sort scopes) (extensionId_of toLowerCase requestingExtension)
             (extensionName_of requestingExtension)]"
  using assms
  by (simp add: getSession_def Let_def new_calls_def do_call_def getSession_filter)

theorem getSession_no_match_no_create_witness:
  "map_of (ext_authenticationProviders bridge_acme) ''acme'' = Some ext_acme
   \<and> provider_getSessions env_repo = [session_repo]
   \<and> matching env_repo [''user'', ''gist''] = []
   \<and> \<not> truthy (createIfNone \<lparr>createIfNone = Some False, clearSessionPreference = None\<rparr>)
   \<and> fst (getSession lower_foo env_repo bridge_acme ext_foo ''acme'' [''user'', ''gist'']
            \<lparr>createIfNone = Some False, clearSessionPreference = None\<rparr>) = Inr None
   \<and> new_calls bridge_acme
        (snd (getSession lower_foo env_repo bridge_acme ext_foo ''acme'' [''user'', ''gist'']
            \<lparr>createIfNone = Some False, clearSessionPreference = None\<rparr>))
       = [Provider_getSessions ''acme'',
          Proxy_requestNewSession ''acme'' [''gist'', ''user''] ''ext.foo'' ''Foo'']"
proof -
  have h1: "map_of (ext_authenticationProviders bridge_acme) ''acme'' = Some ext_acme"
    by (simp add: bridge_acme_def)
  have h2: "matching env_repo [''user'', ''gist''] = []"
    by (simp add: matching_def env_repo_def env0_def session_repo_def pluginScopeKey_def)
  have h3: "\<not> truthy (createIfNone \<lparr>createIfNone = Some False, clearSessionPreference = None\<rparr>)"
    by (simp add: truthy_def)
  have g: "provider_getSessions env_repo = [session_repo]"
    by (simp add: env_repo_def)
  show ?thesis
    using h1 h2 h3 g getSession_no_match_no_create [OF h1 h2 h3, of lower_foo ext_foo]
    by (simp add: ext_acme_def extensionId_of_def extensionName_of_def ext_foo_def
        lower_foo_def)
qed

text \<open>
  Claim C6.  When the user declines the prompt, \<^verbatim>\<open>getSession\<close> fails with
  \<open>ConsentDeniedError\<close> and makes no call to the provider's \<^verbatim>\<open>login\<close>: both for the
  reuse prompt (some session matches and the provider has a single account) and for the
  login prompt (no session matches and \<^verbatim>\<open>createIfNone\<close> is true).
\<close>

theorem getSession_consent_denied:
  assumes "map_of (ext_authenticationProviders st) providerId = Some provider"
    and "(matching env scopes \<noteq> [] \<and> \<not> ext_supportsMultipleAccounts provider
            \<and> \<not> getSessionsPrompt env)
         \<or> (matching env scopes = [] \<and> truthy (createIfNone options) \<and> \<not> loginPrompt env)"
  shows "fst (getSession toLowerCase env st requestingExtension providerId scopes options)
           = Inl ConsentDeniedError
    \<and> filter is_login
        (new_calls st (snd (getSession toLowerCase env st requestingExtension providerId scopes options)))
        = []"
  using assms
  by (auto simp: getSession_def Let_def new_calls_def do_call_def getSession_filter
      split: list.splits)

theorem getSession_consent_denied_witness:
  "map_of (ext_authenticationProviders bridge_acme) ''acme'' = Some ext_acme
   \<and> matching env_repo [''repo''] \<noteq> [] \<and> \<not> ext_supportsMultipleAccounts ext_acme
   \<and> \<not> getSessionsPrompt env_repo
   \<and> fst (getSession lower_foo env_repo bridge_acme ext_foo ''acme'' [''repo'']
            \<lparr>createIfNone = Some True, clearSessionPreference = None\<rparr>) = Inl ConsentDeniedError
   \<and> matching env0 [''repo''] = []
   \<and> truthy (createIfNone \<lparr>createIfNone = Some True, clearSessionPreference = None\<rparr>)
   \<and> \<not> loginPrompt env0
   \<and> fst (getSession lower_foo env0 bridge_acme ext_foo ''acme'' [''repo'']
            \<lparr>createIfNone = Some True, clearSessionPreference = None\<rparr>) = Inl ConsentDeniedError"
proof -
  have h: "map_of (ext_authenticationProviders bridge_acme) ''acme'' = Some ext_acme"
    by (simp add: bridge_acme_def)
  have a: "matching env_repo [''repo''] \<noteq> [] \<and> \<not> ext_supportsMultipleAccounts ext_acme
      \<and> \<not> getSessionsPrompt env_repo"
    by (simp add: matching_def env_repo_def env0_def session_repo_def ext_acme_def)
  have b: "matching env0 [''repo''] = []
      \<and> truthy (createIfNone \<lparr>createIfNone = Some True, clearSessionPreference = None\<rparr>)
      \<and> \<not> loginPrompt env0"
    by (simp add: matching_def env0_def truthy_def)
  show ?thesis
    using h a b
      getSession_consent_denied [OF h disjI1 [OF a], of lower_foo ext_foo
        "\<lparr>createIfNone = Some True, clearSessionPreference = None\<rparr>"]
      getSession_consent_denied [OF h disjI2 [OF b], of lower_foo ext_foo]
    by simp
qed

section \<open>Registering a provider\<close>




end
